theory Spec2Isabelle
  imports Main "HOL-Library.Sublist"
begin

section \<open>The workspace file resolver of luau-lsp\<close>

text \<open>
  A shallow embedding of \<^verbatim>\<open>src/WorkspaceFileResolver.cpp\<close>. Member functions of
  \<^verbatim>\<open>WorkspaceFileResolver\<close> become functions over an explicit \<open>resolver\<close> record;
  a member function that mutates the object returns the updated record. The
  collaborators that live outside this file (the JSON reader, the Luau configuration
  parser, the filesystem, helper routines of \<^verbatim>\<open>LSP/Utils.hpp\<close>) are the fields of an
  \<open>env\<close> record, so that every statement below holds for whatever they compute.
\<close>

subsection \<open>Paths\<close>

text \<open>
  \<^verbatim>\<open>std::filesystem::path\<close> values are kept in their generic format (a string with
  \<open>/\<close> as separator), the way \<^verbatim>\<open>generic_string()\<close> prints them on a POSIX host.
  The operations whose result a statement below depends on are written out for such
  paths; the remaining ones are fields of \<open>env\<close>.
\<close>

type_synonym path = string

definition is_absolute :: "path \<Rightarrow> bool" where
  "is_absolute p = (case p of [] \<Rightarrow> False | c # _ \<Rightarrow> c = CHR ''/'')"

text \<open>\<^verbatim>\<open>operator/\<close>: an absolute right operand replaces the left one; otherwise a
  separator is added unless the left operand is empty or already ends in one.\<close>

definition path_join :: "path \<Rightarrow> path \<Rightarrow> path" where
  "path_join a b =
     (if is_absolute b then b
      else if a \<noteq> [] \<and> last a \<noteq> CHR ''/'' then a @ ''/'' @ b
      else a @ b)"

definition has_relative_path :: "path \<Rightarrow> bool" where
  "has_relative_path p = (dropWhile (\<lambda>c. c = CHR ''/'') p \<noteq> [])"

text \<open>\<^verbatim>\<open>parent_path()\<close>: a path without relative part is its own parent; otherwise the
  last element (possibly empty, after a trailing separator) and the separators before
  it are removed, keeping the root directory.\<close>

definition parent_path :: "path \<Rightarrow> path" where
  "parent_path p =
     (if \<not> has_relative_path p then p
      else let q = rev (dropWhile (\<lambda>c. c = CHR ''/'')
                      (dropWhile (\<lambda>c. c \<noteq> CHR ''/'') (rev p)))
           in if q = [] \<and> is_absolute p then ''/'' else q)"

definition has_parent_path :: "path \<Rightarrow> bool" where
  "has_parent_path p = (parent_path p \<noteq> [])"

text \<open>A path with a relative part is strictly longer than its parent: the walk up
  the directories ends.\<close>

lemma parent_path_shorter:
  assumes rel: "has_relative_path p"
  shows "length (parent_path p) < length p"
proof -
  let ?r = "rev p"
  let ?d1 = "dropWhile (\<lambda>c. c \<noteq> CHR ''/'') ?r"
  let ?d2 = "dropWhile (\<lambda>c. c = CHR ''/'') ?d1"
  have drop_strict: "length (dropWhile P xs) < length xs" if "xs \<noteq> []" "P (hd xs)"
    for P and xs :: string
    using that by (cases xs) (auto simp: le_imp_less_Suc length_dropWhile_le)
  from rel have ne: "p \<noteq> []" by (auto simp: has_relative_path_def)
  from rel obtain c where c: "c \<in> set p" "c \<noteq> CHR ''/''"
    by (auto simp: has_relative_path_def dropWhile_eq_Nil_conv)
  have le2: "length ?d2 \<le> length ?d1" by (rule length_dropWhile_le)
  have strict: "length ?d2 < length p"
  proof (cases "hd ?r = CHR ''/''")
    case True
    then have "?d1 = ?r" using ne by (cases ?r) auto
    then have "length ?d2 < length ?r"
      using drop_strict[of ?r "\<lambda>c. c = CHR ''/''"] True ne by simp
    then show ?thesis by simp
  next
    case False
    then have "length ?d1 < length ?r"
      using drop_strict[of ?r "\<lambda>c. c \<noteq> CHR ''/''"] ne by simp
    then show ?thesis using le2 by simp
  qed
  have pp: "parent_path p = (if rev ?d2 = [] \<and> is_absolute p then ''/'' else rev ?d2)"
    unfolding parent_path_def Let_def using rel by (simp only: not_True_eq_False if_False)
  show ?thesis
  proof (cases "rev ?d2 = [] \<and> is_absolute p")
    case True
    then have "is_absolute p" by (rule conjunct2)
    then obtain t where t: "p = CHR ''/'' # t" by (cases p) (simp_all add: is_absolute_def)
    with c have "t \<noteq> []" by auto
    then have "length t \<ge> 1" by (cases t) simp_all
    with t have "length p \<ge> 2" by simp
    moreover have "parent_path p = ''/''" by (subst pp) (rule if_P [OF True])
    ultimately show ?thesis by simp
  next
    case False
    then have "parent_path p = rev ?d2" by (subst pp) (rule if_not_P)
    then show ?thesis using strict by simp
  qed
qed

subsection \<open>Data model\<close>

text \<open>
  A \<^verbatim>\<open>SourceNodePtr\<close> is a shared pointer to a node owned by the tree under
  \<^verbatim>\<open>rootSourceNode\<close>. A node is identified by its address, and the address of a node
  of a tree is modelled by its position: the list of child indexes leading from the
  root to it. Two nodes with equal fields at different positions are different
  objects, as in the source.
\<close>

type_synonym SourceNodePtr = "nat list"

text \<open>
  \<^verbatim>\<open>SourceNode\<close> is declared outside this file. The fields used here are kept;
  \<open>scriptFilePath\<close> stands for the result of \<^verbatim>\<open>getScriptFilePath()\<close>.
\<close>

datatype SourceNode = SourceNode
  (name: string)
  (className: string)
  (scriptFilePath: "string option")
  (virtualPath: string)
  (parent: "SourceNodePtr option")
  (children: "SourceNode list")

fun node_at :: "SourceNode \<Rightarrow> SourceNodePtr \<Rightarrow> SourceNode option" where
  "node_at n [] = Some n"
| "node_at n (i # p) =
     (if i < length (children n) then node_at (children n ! i) p else None)"

datatype RequireModeConfig = RelativeToWorkspaceRoot | RelativeToFile

text \<open>
  What \<^verbatim>\<open>client->getConfiguration(rootUri).require\<close> holds. \<open>fileAliases\<close> is only
  searched by key; \<open>directoryAliases\<close> is iterated, so it is the list of its entries
  in the iteration order of the \<^verbatim>\<open>std::unordered_map\<close>.
\<close>

record ClientConfiguration =
  require_mode :: RequireModeConfig
  fileAliases :: "string \<rightharpoonup> string"
  directoryAliases :: "(string \<times> string) list"

text \<open>\<^verbatim>\<open>Luau::ModuleInfo\<close>: a module name and the \<open>optional\<close> flag (default false).\<close>

record ModuleInfo =
  moduleName :: string
  optional :: bool

text \<open>
  The resolver object. \<open>client\<close> is \<open>None\<close> for a null client pointer; \<open>published\<close>
  records the calls of \<^verbatim>\<open>client->publishDiagnostics\<close> (file and messages), oldest first.
\<close>

record 'c resolver =
  rootUri_fsPath :: path
  client :: "ClientConfiguration option"
  pluginInfo :: bool
  rootSourceNode :: "SourceNode option"
  realPathsToSourceNodes :: "string \<rightharpoonup> SourceNodePtr"
  virtualPathsToSourceNodes :: "string \<rightharpoonup> SourceNodePtr"
  defaultConfig :: 'c
  configCache :: "string \<rightharpoonup> 'c"
  configErrors :: "(path \<times> string) list"
  published :: "(path \<times> string list) list"

text \<open>
  The collaborators. \<open>weakly_canonical\<close> is \<open>None\<close> when the call sets its error code;
  \<open>parseSourceMap\<close> is \<^verbatim>\<open>json::parse\<close> followed by \<^verbatim>\<open>get<SourceNode>()\<close>, \<open>None\<close> when
  either throws; \<open>parseConfig\<close> returns the error message, if any, and the
  configuration it leaves in its in-out argument; \<open>uriNormalise\<close> is the round trip
  through \<^verbatim>\<open>Uri::file\<close> and \<^verbatim>\<open>Uri::parse\<close>. The filesystem queries are assumed
  not to raise.
\<close>

record 'c env =
  isVirtualPath :: "string \<Rightarrow> bool"
  getParentPath :: "string \<Rightarrow> string option"
  getAncestorPath :: "string \<Rightarrow> string \<Rightarrow> string option"
  resolvePath :: "path \<Rightarrow> path"
  weakly_canonical :: "path \<Rightarrow> path option"
  fs_exists :: "path \<Rightarrow> bool"
  fs_is_directory :: "path \<Rightarrow> bool"
  has_extension :: "path \<Rightarrow> bool"
  replace_extension :: "path \<Rightarrow> string \<Rightarrow> path"
  uriNormalise :: "path \<Rightarrow> path"
  readFile :: "path \<Rightarrow> string option"
  kConfigName :: string
  parseConfig :: "string \<Rightarrow> 'c \<Rightarrow> string option \<times> 'c"
  parseSourceMap :: "string \<Rightarrow> SourceNode option"
  mutateWithPluginInfo :: "SourceNode \<Rightarrow> SourceNode"
  defaultIncludeExtension :: bool

subsection \<open>Index lookups and the two resolution directions\<close>

definition getSourceNodeFromVirtualPath ::
  "'c resolver \<Rightarrow> string \<Rightarrow> SourceNodePtr option" where
  "getSourceNodeFromVirtualPath st nm = virtualPathsToSourceNodes st nm"

definition getSourceNodeFromRealPath ::
  "'c env \<Rightarrow> 'c resolver \<Rightarrow> string \<Rightarrow> SourceNodePtr option" where
  "getSourceNodeFromRealPath e st nm =
     (let canonicalName = (case weakly_canonical e nm of None \<Rightarrow> nm | Some c \<Rightarrow> c)
      in realPathsToSourceNodes st canonicalName)"

text \<open>Dereferencing a node pointer: the node at that position of the current tree.
  Both indexes are emptied whenever the tree is about to be replaced, so a stored
  pointer always refers into the current tree; \<open>None\<close> stands for a pointer that
  does not.\<close>

definition deref :: "'c resolver \<Rightarrow> SourceNodePtr \<Rightarrow> SourceNode option" where
  "deref st p = (case rootSourceNode st of None \<Rightarrow> None | Some r \<Rightarrow> node_at r p)"

definition getVirtualPathFromSourceNode :: "SourceNode \<Rightarrow> string" where
  "getVirtualPathFromSourceNode sourceNode = virtualPath sourceNode"

definition getRealPathFromSourceNode :: "'c resolver \<Rightarrow> SourceNode \<Rightarrow> path option" where
  "getRealPathFromSourceNode st sourceNode =
     (case scriptFilePath sourceNode of
        Some filePath \<Rightarrow> Some (path_join (rootUri_fsPath st) filePath)
      | None \<Rightarrow> None)"

definition resolveToVirtualPath :: "'c env \<Rightarrow> 'c resolver \<Rightarrow> string \<Rightarrow> string option" where
  "resolveToVirtualPath e st nm =
     (if isVirtualPath e nm then Some nm
      else case getSourceNodeFromRealPath e st nm of
             None \<Rightarrow> None
           | Some p \<Rightarrow> map_option getVirtualPathFromSourceNode (deref st p))"

definition resolveToRealPath :: "'c env \<Rightarrow> 'c resolver \<Rightarrow> string \<Rightarrow> path option" where
  "resolveToRealPath e st nm =
     (if isVirtualPath e nm then
        (case getSourceNodeFromVirtualPath st nm of
           Some p \<Rightarrow> (case deref st p of
                        Some sourceNode \<Rightarrow> getRealPathFromSourceNode st sourceNode
                      | None \<Rightarrow> None)
         | None \<Rightarrow> None)
      else Some nm)"

subsection \<open>Reference resolution\<close>

definition mapContext :: "string \<Rightarrow> string" where
  "mapContext context =
     (if context = ''game/Players/LocalPlayer/PlayerScripts''
        then ''game/StarterPlayer/StarterPlayerScripts''
      else if context = ''game/Players/LocalPlayer/PlayerGui''
        then ''game/StarterGui''
      else if context = ''game/Players/LocalPlayer/StarterGear''
        then ''game/StarterPack''
      else context)"

definition getRequireBasePath :: "'c env \<Rightarrow> 'c resolver \<Rightarrow> string option \<Rightarrow> path" where
  "getRequireBasePath e st fileModuleName =
     (case client st of
        None \<Rightarrow> rootUri_fsPath st
      | Some config \<Rightarrow>
          (case require_mode config of
             RelativeToWorkspaceRoot \<Rightarrow> rootUri_fsPath st
           | RelativeToFile \<Rightarrow>
               (case fileModuleName of
                  Some nm \<Rightarrow>
                    (case resolveToRealPath e st nm of
                       Some filePath \<Rightarrow> parent_path filePath
                     | None \<Rightarrow> rootUri_fsPath st)
                | None \<Rightarrow> rootUri_fsPath st)))"

text \<open>The loop over the alias table: the first entry, in iteration order, whose
  alias is a prefix of \<open>str\<close> decides.\<close>

fun resolveDirectoryAlias ::
  "'c env \<Rightarrow> (string \<times> string) list \<Rightarrow> string \<Rightarrow> bool \<Rightarrow> path option" where
  "resolveDirectoryAlias e [] str includeExtension = None"
| "resolveDirectoryAlias e ((alias, pth) # rest) str includeExtension =
     (if prefix alias str then
        (let directoryPath = pth;
             remainder = drop (length alias) str;
             filePath = resolvePath e
               (if remainder = [] then directoryPath else path_join directoryPath remainder)
         in if includeExtension \<and> \<not> has_extension e filePath then
              (if fs_exists e (replace_extension e filePath ''.luau'')
               then Some (replace_extension e (replace_extension e filePath ''.luau'') ''.luau'')
               else Some (replace_extension e (replace_extension e filePath ''.luau'') ''.lua''))
            else Some filePath)
      else resolveDirectoryAlias e rest str includeExtension)"

text \<open>
  The expression shapes \<^verbatim>\<open>resolveModule\<close> inspects, and one constructor for every
  other shape of the Luau syntax tree.
\<close>

datatype AstExpr =
    AstExprConstantString string
  | AstExprGlobal string
  | AstExprIndexName AstExpr string
  | AstExprIndexExpr AstExpr AstExpr
  | AstExprCall AstExpr "AstExpr list" bool
  | AstExprOther

text \<open>A fault is what the C++ leaves undefined: here, reading through a null pointer.\<close>

datatype fault = NullDereference

definition resolveStringRequire ::
  "'c env \<Rightarrow> 'c resolver \<Rightarrow> ModuleInfo option \<Rightarrow> string \<Rightarrow> ModuleInfo" where
  "resolveStringRequire e st context requiredString =
     (let basePath = getRequireBasePath e st (map_option moduleName context);
          filePath0 = path_join basePath requiredString;
          filePath1 =
            (case client st of
               None \<Rightarrow> filePath0
             | Some config \<Rightarrow>
                 (case fileAliases config requiredString of
                    Some target \<Rightarrow> resolvePath e target
                  | None \<Rightarrow>
                      (case resolveDirectoryAlias e (directoryAliases config) requiredString
                              (defaultIncludeExtension e) of
                         Some aliasedPath \<Rightarrow> aliasedPath
                       | None \<Rightarrow> filePath0)));
          filePath2 =
            (if fs_is_directory e filePath1 then path_join filePath1 ''init.luau''
             else filePath1);
          filePath3 = replace_extension e filePath2 ''.luau'';
          filePath4 =
            (if weakly_canonical e filePath3 = None \<or> \<not> fs_exists e filePath3
             then (case weakly_canonical e (replace_extension e filePath3 ''.lua'') of
                     Some c \<Rightarrow> c | None \<Rightarrow> [])
             else filePath3)
      in \<lparr>moduleName = uriNormalise e filePath4, optional = False\<rparr>)"

definition childOf :: "ModuleInfo \<Rightarrow> string \<Rightarrow> ModuleInfo" where
  "childOf context nm =
     \<lparr>moduleName = mapContext (moduleName context) @ ''/'' @ nm,
      optional = optional context\<rparr>"

fun resolveModule ::
  "'c env \<Rightarrow> 'c resolver \<Rightarrow> ModuleInfo option \<Rightarrow> AstExpr \<Rightarrow> fault + ModuleInfo option" where
  "resolveModule e st context (AstExprConstantString requiredString) =
     Inr (Some (resolveStringRequire e st context requiredString))"
| "resolveModule e st context (AstExprGlobal g) =
     (if g = ''game'' then Inr (Some \<lparr>moduleName = ''game'', optional = False\<rparr>)
      else if g = ''script'' then
        (case context of
           None \<Rightarrow> Inl NullDereference
         | Some c \<Rightarrow>
             (case resolveToVirtualPath e st (moduleName c) of
                Some vp \<Rightarrow> Inr (Some \<lparr>moduleName = vp, optional = False\<rparr>)
              | None \<Rightarrow> Inr None))
      else Inr None)"
| "resolveModule e st context (AstExprIndexName expr index) =
     (case context of
        None \<Rightarrow> Inr None
      | Some c \<Rightarrow>
          (case (if index = ''Parent'' then getParentPath e (moduleName c) else None) of
             Some parentPath \<Rightarrow>
               Inr (Some \<lparr>moduleName = parentPath, optional = optional c\<rparr>)
           | None \<Rightarrow> Inr (Some (childOf c index))))"
| "resolveModule e st context (AstExprIndexExpr expr index) =
     (case index of
        AstExprConstantString s \<Rightarrow>
          (case context of
             Some c \<Rightarrow> Inr (Some (childOf c s))
           | None \<Rightarrow> Inr None)
      | _ \<Rightarrow> Inr None)"
| "resolveModule e st context (AstExprCall func args self) =
     (case context of
        None \<Rightarrow> Inr None
      | Some c \<Rightarrow>
          (if self \<and> length args \<ge> 1 then
             (case hd args of
                AstExprConstantString s \<Rightarrow>
                  (case func of
                     AstExprIndexName obj f \<Rightarrow>
                       (if f = ''GetService'' \<and> moduleName c = ''game'' then
                          Inr (Some \<lparr>moduleName = ''game/'' @ s, optional = False\<rparr>)
                        else if f = ''WaitForChild''
                                \<or> (f = ''FindFirstChild'' \<and> length args = 1) then
                          Inr (Some (childOf c s))
                        else if f = ''FindFirstAncestor'' then
                          (case getAncestorPath e (moduleName c) s of
                             Some ancestorName \<Rightarrow>
                               Inr (Some \<lparr>moduleName = ancestorName, optional = optional c\<rparr>)
                           | None \<Rightarrow> Inr None)
                        else Inr None)
                   | _ \<Rightarrow> Inl NullDereference)
              | _ \<Rightarrow> Inr None)
           else Inr None))"
| "resolveModule e st context AstExprOther = Inr None"

subsection \<open>Rebuilding the tree and its two indexes\<close>

text \<open>
  \<^verbatim>\<open>writePathsToMap(node, base)\<close>, called on the node at position \<open>pos\<close>. It returns
  the node as the traversal leaves it (virtual paths and parent pointers assigned)
  and the resolver with both indexes extended. \<open>writeChildren\<close> is the loop over
  \<^verbatim>\<open>node->children\<close>, \<open>i\<close> being the index of the first child still to visit.
\<close>

fun writePathsToMap ::
    "'c env \<Rightarrow> SourceNodePtr \<Rightarrow> SourceNode \<Rightarrow> string \<Rightarrow> 'c resolver
       \<Rightarrow> SourceNode \<times> 'c resolver"
  and writeChildren ::
    "'c env \<Rightarrow> SourceNodePtr \<Rightarrow> nat \<Rightarrow> SourceNode list \<Rightarrow> string \<Rightarrow> 'c resolver
       \<Rightarrow> SourceNode list \<times> 'c resolver" where
  "writePathsToMap e pos (SourceNode nm cls sfp vp par chs) base st =
     (let st1 = st\<lparr>virtualPathsToSourceNodes := (virtualPathsToSourceNodes st)(base \<mapsto> pos)\<rparr>;
          st2 =
            (case sfp of
               Some realPath \<Rightarrow>
                 (let canonicalName =
                        (case weakly_canonical e (path_join (rootUri_fsPath st1) realPath) of
                           Some c \<Rightarrow> c
                         | None \<Rightarrow> realPath)
                  in st1\<lparr>realPathsToSourceNodes :=
                           (realPathsToSourceNodes st1)(canonicalName \<mapsto> pos)\<rparr>)
             | None \<Rightarrow> st1);
          (chs', st3) = writeChildren e pos 0 chs base st2
      in (SourceNode nm cls sfp base par chs', st3))"
| "writeChildren e pos i [] base st = ([], st)"
| "writeChildren e pos i (child # rest) base st =
     (case child of SourceNode nm cls sfp vp par chs \<Rightarrow>
        (let (child', st1) =
               writePathsToMap e (pos @ [i]) (SourceNode nm cls sfp vp (Some pos) chs)
                 (base @ ''/'' @ nm) st;
             (rest', st2) = writeChildren e pos (Suc i) rest base st1
         in (child' # rest', st2)))"

text \<open>
  \<^verbatim>\<open>updateSourceMap\<close>. Both indexes are cleared before the description is read; when
  reading it throws, the handler only logs.
\<close>

definition updateSourceMap :: "'c env \<Rightarrow> string \<Rightarrow> 'c resolver \<Rightarrow> 'c resolver" where
  "updateSourceMap e sourceMapContents st =
     (let st0 = st\<lparr>realPathsToSourceNodes := Map.empty,
                   virtualPathsToSourceNodes := Map.empty\<rparr>
      in case parseSourceMap e sourceMapContents of
           None \<Rightarrow> st0
         | Some j \<Rightarrow>
             (let root0 =
                    (if pluginInfo st0 \<and> className j = ''DataModel''
                     then mutateWithPluginInfo e j else j);
                  base = (if className root0 = ''DataModel'' then ''game'' else ''ProjectRoot'');
                  (root1, st1) = writePathsToMap e [] root0 base st0
              in st1\<lparr>rootSourceNode := Some root1\<rparr>))"

subsection \<open>The configuration cascade\<close>

definition clearConfigCache :: "'c resolver \<Rightarrow> 'c resolver" where
  "clearConfigCache st = st\<lparr>configCache := Map.empty, configErrors := []\<rparr>"

text \<open>The part of \<^verbatim>\<open>readConfigRec\<close> after the parent's record is known: read the
  configuration file of the directory, parse it over \<open>result\<close>, report.\<close>

definition readConfigFile ::
  "'c env \<Rightarrow> path \<Rightarrow> 'c \<Rightarrow> 'c resolver \<Rightarrow> 'c \<times> 'c resolver" where
  "readConfigFile e pth result st =
     (let configPath = path_join pth (kConfigName e)
      in case readFile e configPath of
           None \<Rightarrow> (result, st)
         | Some contents \<Rightarrow>
             (case parseConfig e contents result of
                (Some err, result') \<Rightarrow>
                  (if client st \<noteq> None
                   then (result', st\<lparr>published := published st @ [(configPath, [err])]\<rparr>)
                   else (result', st\<lparr>configErrors := configErrors st @ [(configPath, err)]\<rparr>))
              | (None, result') \<Rightarrow>
                  (if client st \<noteq> None
                   then (result', st\<lparr>published := published st @ [(configPath, [])]\<rparr>)
                   else (result', st))))"

function readConfigRec :: "'c env \<Rightarrow> path \<Rightarrow> 'c resolver \<Rightarrow> 'c \<times> 'c resolver" where
  "readConfigRec e pth st =
     (case configCache st pth of
        Some cached \<Rightarrow> (cached, st)
      | None \<Rightarrow>
          (let (result0, st1) =
                 (if has_relative_path pth \<and> has_parent_path pth
                  then readConfigRec e (parent_path pth) st
                  else (defaultConfig st, st));
               (result, st2) = readConfigFile e pth result0 st1
           in (result, st2\<lparr>configCache := (configCache st2)(pth \<mapsto> result)\<rparr>)))"
  by pat_completeness auto
termination
  by (relation "measure (\<lambda>(e, pth, st). length pth)") (auto simp: parent_path_shorter)

declare readConfigRec.simps [simp del]

definition getConfig :: "'c env \<Rightarrow> string \<Rightarrow> 'c resolver \<Rightarrow> 'c \<times> 'c resolver" where
  "getConfig e nm st =
     (case resolveToRealPath e st nm of
        None \<Rightarrow> (defaultConfig st, st)
      | Some realPath \<Rightarrow>
          (if \<not> has_relative_path realPath \<or> \<not> has_parent_path realPath
           then (defaultConfig st, st)
           else readConfigRec e (parent_path realPath) st))"

subsection \<open>Specification-side definitions\<close>

text \<open>
  Modelled from the spec: \<^verbatim>\<open>getParentPath\<close> is a helper of \<^verbatim>\<open>LSP/Utils.hpp\<close> whose
  code is not part of this file. The specification describes its result as the
  virtual path one level up, and no result when the context has no parent: the path
  without its last segment, and nothing for a path of a single segment.
\<close>

definition getParentPath_spec :: "string \<Rightarrow> string option" where
  "getParentPath_spec p =
     (if CHR ''/'' \<in> set p
      then Some (rev (tl (dropWhile (\<lambda>c. c \<noteq> CHR ''/'') (rev p))))
      else None)"

text \<open>
  The alias rule as the specification words it: among the aliases that are a prefix
  of the literal, the longest one is chosen (the earliest of the longest, should
  several have that length).
\<close>

fun longestAlias :: "(string \<times> string) list \<Rightarrow> string \<Rightarrow> (string \<times> string) option" where
  "longestAlias [] str = None"
| "longestAlias ((alias, pth) # rest) str =
     (case longestAlias rest str of
        None \<Rightarrow> (if prefix alias str then Some (alias, pth) else None)
      | Some (alias', pth') \<Rightarrow>
          (if prefix alias str \<and> length alias' \<le> length alias
           then Some (alias, pth) else Some (alias', pth')))"

definition resolveDirectoryAlias_longest ::
  "'c env \<Rightarrow> (string \<times> string) list \<Rightarrow> string \<Rightarrow> path option" where
  "resolveDirectoryAlias_longest e aliases str =
     (case longestAlias aliases str of
        None \<Rightarrow> None
      | Some (alias, pth) \<Rightarrow>
          (let remainder = drop (length alias) str
           in Some (resolvePath e (if remainder = [] then pth else path_join pth remainder))))"

text \<open>The real-path index key \<^verbatim>\<open>writePathsToMap\<close> computes for a script file path.\<close>

definition realPathKey :: "'c env \<Rightarrow> path \<Rightarrow> string \<Rightarrow> string" where
  "realPathKey e root realPath =
     (case weakly_canonical e (path_join root realPath) of
        Some c \<Rightarrow> c
      | None \<Rightarrow> realPath)"

text \<open>One write into an index: the node at position \<open>fst pn\<close> is stored under the
  key \<open>kf\<close> assigns to it, if any.\<close>

definition index_step ::
  "(SourceNode \<Rightarrow> string option) \<Rightarrow> SourceNodePtr \<times> SourceNode
     \<Rightarrow> (string \<rightharpoonup> SourceNodePtr) \<Rightarrow> (string \<rightharpoonup> SourceNodePtr)" where
  "index_step kf pn m = (case kf (snd pn) of None \<Rightarrow> m | Some k \<Rightarrow> m(k \<mapsto> fst pn))"

definition virtualKey :: "SourceNode \<Rightarrow> string option" where
  "virtualKey n = Some (virtualPath n)"

definition realKey :: "'c env \<Rightarrow> path \<Rightarrow> SourceNode \<Rightarrow> string option" where
  "realKey e root n = map_option (realPathKey e root) (scriptFilePath n)"

text \<open>The nodes of a tree in the order \<^verbatim>\<open>writePathsToMap\<close> visits them, each with
  its position.\<close>

fun preorder :: "SourceNodePtr \<Rightarrow> SourceNode \<Rightarrow> (SourceNodePtr \<times> SourceNode) list"
  and preorder_list ::
    "SourceNodePtr \<Rightarrow> nat \<Rightarrow> SourceNode list \<Rightarrow> (SourceNodePtr \<times> SourceNode) list" where
  "preorder pos (SourceNode nm cls sfp vp par chs) =
     (pos, SourceNode nm cls sfp vp par chs) # preorder_list pos 0 chs"
| "preorder_list pos i [] = []"
| "preorder_list pos i (child # rest) =
     preorder (pos @ [i]) child @ preorder_list pos (Suc i) rest"

text \<open>The record the cascade assigns to a directory when nothing is cached.\<close>

definition overlay :: "'c env \<Rightarrow> path \<Rightarrow> 'c \<Rightarrow> 'c" where
  "overlay e pth base =
     (case readFile e (path_join pth (kConfigName e)) of
        None \<Rightarrow> base
      | Some contents \<Rightarrow> snd (parseConfig e contents base))"

text \<open>
  The cascade as the specification words it: the record of a directory is the record
  of its parent directory, or the global default \<open>d\<close> when there is no parent, with
  the directory's own configuration file overlaid.
\<close>

function merged :: "'c env \<Rightarrow> 'c \<Rightarrow> path \<Rightarrow> 'c" where
  "merged e d pth =
     overlay e pth
       (if has_relative_path pth \<and> has_parent_path pth
        then merged e d (parent_path pth) else d)"
  by pat_completeness auto
termination
  by (relation "measure (\<lambda>(e, d, pth). length pth)") (auto simp: parent_path_shorter)

declare merged.simps [simp del]

text \<open>The states a resolver reaches, from an empty cache, by configuration queries
  and invalidations against one environment.\<close>

inductive config_reachable :: "'c env \<Rightarrow> 'c resolver \<Rightarrow> bool" for e :: "'c env" where
  fresh: "configCache st = Map.empty \<Longrightarrow> config_reachable e st"
| query: "config_reachable e st \<Longrightarrow> config_reachable e (snd (readConfigRec e pth st))"
| invalidate: "config_reachable e st \<Longrightarrow> config_reachable e (clearConfigCache st)"

subsection \<open>A concrete workspace\<close>

text \<open>
  An environment and a resolver on which the statements are instantiated: workspace
  root \<open>/ws\<close>, a configuration file in \<open>/ws/sub\<close>, two structural descriptions that
  parse (\<open>scenarioA\<close> and \<open>twins\<close>), every other description malformed. A
  configuration is the list of the settings read so far.
\<close>

definition scenario_tree :: SourceNode where
  "scenario_tree =
     SourceNode ''root'' ''DataModel'' None [] None
       [SourceNode ''ReplicatedStorage'' ''Folder'' (Some ''src/shared/init.luau'') [] None []]"

definition twins_tree :: SourceNode where
  "twins_tree =
     SourceNode ''root'' ''DataModel'' None [] None
       [SourceNode ''A'' ''Folder'' None [] None [],
        SourceNode ''A'' ''Folder'' None [] None []]"

definition demo_env :: "string list env" where
  "demo_env =
     \<lparr>isVirtualPath = (\<lambda>n. n = ''game'' \<or> prefix ''game/'' n),
      getParentPath = getParentPath_spec,
      getAncestorPath = (\<lambda>p a. None),
      resolvePath = (\<lambda>p. p),
      weakly_canonical = (\<lambda>p. Some p),
      fs_exists = (\<lambda>p. False),
      fs_is_directory = (\<lambda>p. False),
      has_extension = (\<lambda>p. False),
      replace_extension = (\<lambda>p x. p @ x),
      uriNormalise = (\<lambda>p. p),
      readFile = (\<lambda>p. if p = ''/ws/sub/.luaurc'' then Some ''X=1'' else None),
      kConfigName = ''.luaurc'',
      parseConfig = (\<lambda>contents base. (None, base @ [contents])),
      parseSourceMap =
        (\<lambda>s. if s = ''scenarioA'' then Some scenario_tree
             else if s = ''twins'' then Some twins_tree else None),
      mutateWithPluginInfo = (\<lambda>n. n),
      defaultIncludeExtension = False\<rparr>"

definition demo_resolver :: "string list resolver" where
  "demo_resolver =
     \<lparr>rootUri_fsPath = ''/ws'',
      client = None,
      pluginInfo = False,
      rootSourceNode = None,
      realPathsToSourceNodes = Map.empty,
      virtualPathsToSourceNodes = Map.empty,
      defaultConfig = [],
      configCache = Map.empty,
      configErrors = [],
      published = []\<rparr>"

section \<open>Properties\<close>

subsection \<open>Reference resolution\<close>

text \<open>
  Claim C2. \<^verbatim>\<open>resolveModule\<close> is meant to answer every context, an absent one
  included, with a module or with no result. Every branch that reads the context
  tests the pointer first, except the one for the global \<open>script\<close>: there
  \<^verbatim>\<open>context->name\<close> is read unguarded, so an absent context is a null dereference.
\<close>

theorem script_without_context_faults:
  "resolveModule e st None (AstExprGlobal ''script'') = Inl NullDereference"
  by simp

text \<open>
  No other context faults on an expression the parser can produce: a fault needs the
  global \<open>script\<close> without context, or a method call whose callee is not a named
  index, which the parser never builds.
\<close>

lemma resolveModule_fault_cases:
  assumes "resolveModule e st ctx node = Inl f"
  shows "(ctx = None \<and> node = AstExprGlobal ''script'') \<or>
         (\<exists>func args. node = AstExprCall func args True \<and>
            (\<forall>obj nm. func \<noteq> AstExprIndexName obj nm))"
  using assms
  by (cases node) (auto split: option.splits if_splits AstExpr.splits)

text \<open>
  Claim C4, as stated: a context that begins with one of the three local-player
  paths has that prefix rewritten before the child segment is appended. It fails for
  a context that properly extends such a path: \<^verbatim>\<open>mapContext\<close> compares for equality.
\<close>

theorem mapContext_prefix_counterexample:
  "prefix ''game/Players/LocalPlayer/PlayerGui'' ''game/Players/LocalPlayer/PlayerGui/Hud'' \<and>
   resolveModule demo_env demo_resolver
     (Some \<lparr>moduleName = ''game/Players/LocalPlayer/PlayerGui/Hud'', optional = False\<rparr>)
     (AstExprIndexName AstExprOther ''Frame'')
   = Inr (Some \<lparr>moduleName = ''game/Players/LocalPlayer/PlayerGui/Hud/Frame'', optional = False\<rparr>) \<and>
   resolveModule demo_env demo_resolver
     (Some \<lparr>moduleName = ''game/Players/LocalPlayer/PlayerGui/Hud'', optional = False\<rparr>)
     (AstExprIndexName AstExprOther ''Frame'')
   \<noteq> Inr (Some \<lparr>moduleName = ''game/StarterGui/Hud/Frame'', optional = False\<rparr>)"
  by (simp add: childOf_def mapContext_def)

text \<open>
  Claim C4, amended: context remapping is an exact-match substitution. A context equal
  to one of the three local-player paths is replaced by its shared container, every
  other context is left as it is, and named child access (for a name other than
  \<open>Parent\<close>) and indexed access with a literal key append \<open>/\<close> and the name to the
  remapped context, keeping the context's optional flag.
\<close>

theorem mapContext_exact_match:
  "mapContext ''game/Players/LocalPlayer/PlayerScripts'' = ''game/StarterPlayer/StarterPlayerScripts'' \<and>
   mapContext ''game/Players/LocalPlayer/PlayerGui'' = ''game/StarterGui'' \<and>
   mapContext ''game/Players/LocalPlayer/StarterGear'' = ''game/StarterPack'' \<and>
   (ctx \<noteq> ''game/Players/LocalPlayer/PlayerScripts'' \<and>
    ctx \<noteq> ''game/Players/LocalPlayer/PlayerGui'' \<and>
    ctx \<noteq> ''game/Players/LocalPlayer/StarterGear'' \<longrightarrow> mapContext ctx = ctx) \<and>
   (nm \<noteq> ''Parent'' \<longrightarrow>
      resolveModule e st (Some \<lparr>moduleName = ctx, optional = opt\<rparr>) (AstExprIndexName obj nm)
      = Inr (Some \<lparr>moduleName = mapContext ctx @ ''/'' @ nm, optional = opt\<rparr>)) \<and>
   resolveModule e st (Some \<lparr>moduleName = ctx, optional = opt\<rparr>)
      (AstExprIndexExpr obj (AstExprConstantString nm))
   = Inr (Some \<lparr>moduleName = mapContext ctx @ ''/'' @ nm, optional = opt\<rparr>)"
  by (simp add: childOf_def mapContext_def)

theorem mapContext_exact_match_witness:
  "resolveModule demo_env demo_resolver
     (Some \<lparr>moduleName = ''game/Players/LocalPlayer/PlayerGui'', optional = False\<rparr>)
     (AstExprIndexName AstExprOther ''Frame'')
   = Inr (Some \<lparr>moduleName = ''game/StarterGui/Frame'', optional = False\<rparr>) \<and>
   mapContext ''game/Players/LocalPlayer/PlayerGui/Hud'' = ''game/Players/LocalPlayer/PlayerGui/Hud''"
  using mapContext_exact_match [of "''game/Players/LocalPlayer/PlayerGui''" "''Frame''"
      demo_env demo_resolver False AstExprOther]
    mapContext_exact_match [of "''game/Players/LocalPlayer/PlayerGui/Hud''" "''Frame''"
      demo_env demo_resolver False AstExprOther]
  by simp

text \<open>The specification's \<^verbatim>\<open>getParentPath\<close> removes the last segment of a path
  and gives nothing for a path of one segment.\<close>

lemma getParentPath_spec_segment:
  "CHR ''/'' \<notin> set seg \<Longrightarrow> getParentPath_spec (p @ ''/'' @ seg) = Some p"
  "CHR ''/'' \<notin> set p \<Longrightarrow> getParentPath_spec p = None"
proof -
  assume seg: "CHR ''/'' \<notin> set seg"
  then have "dropWhile (\<lambda>c. c \<noteq> CHR ''/'') (rev seg @ CHR ''/'' # rev p) = CHR ''/'' # rev p"
    by (auto simp: dropWhile_append3)
  then show "getParentPath_spec (p @ ''/'' @ seg) = Some p"
    by (simp add: getParentPath_spec_def)
next
  assume "CHR ''/'' \<notin> set p"
  then show "getParentPath_spec p = None" by (simp add: getParentPath_spec_def)
qed

text \<open>
  Claim C5, as stated: parent navigation gives no result when the context has no
  parent segment. With \<^verbatim>\<open>getParentPath\<close> as the specification describes it, the
  context \<open>game\<close> has no parent, and the resolver answers \<open>game/Parent\<close>.
\<close>

theorem parent_navigation_counterexample:
  "getParentPath demo_env ''game'' = None \<and>
   resolveModule demo_env demo_resolver (Some \<lparr>moduleName = ''game'', optional = False\<rparr>)
     (AstExprIndexName AstExprOther ''Parent'')
   = Inr (Some \<lparr>moduleName = ''game/Parent'', optional = False\<rparr>)"
  by (simp add: demo_env_def getParentPath_spec_def childOf_def mapContext_def)

text \<open>
  Claim C5, amended: for a present context, parent navigation returns what
  \<^verbatim>\<open>getParentPath\<close> gives for the context's name, with the context's optional flag:
  with \<^verbatim>\<open>getParentPath\<close> as the specification describes it, the context's virtual
  path with its last segment removed. When \<^verbatim>\<open>getParentPath\<close> gives nothing, the
  reference is resolved like a child named \<open>Parent\<close> of the remapped context. For an
  absent context there is no result.
\<close>

theorem parent_navigation:
  "resolveModule e st (Some c) (AstExprIndexName obj ''Parent'') =
     (case getParentPath e (moduleName c) of
        Some parentPath \<Rightarrow> Inr (Some \<lparr>moduleName = parentPath, optional = optional c\<rparr>)
      | None \<Rightarrow> Inr (Some \<lparr>moduleName = mapContext (moduleName c) @ ''/Parent'',
                             optional = optional c\<rparr>)) \<and>
   resolveModule e st None (AstExprIndexName obj ''Parent'') = Inr None \<and>
   (getParentPath e = getParentPath_spec \<and> CHR ''/'' \<notin> set seg \<longrightarrow>
      resolveModule e st (Some \<lparr>moduleName = p @ ''/'' @ seg, optional = opt\<rparr>)
        (AstExprIndexName obj ''Parent'')
      = Inr (Some \<lparr>moduleName = p, optional = opt\<rparr>))"
  using getParentPath_spec_segment(1) [of seg p]
  by (simp add: childOf_def split: option.splits)

theorem parent_navigation_witness:
  "getParentPath demo_env = getParentPath_spec \<and>
   resolveModule demo_env demo_resolver
     (Some \<lparr>moduleName = ''game/ReplicatedStorage/Utils'', optional = False\<rparr>)
     (AstExprIndexName AstExprOther ''Parent'')
   = Inr (Some \<lparr>moduleName = ''game/ReplicatedStorage'', optional = False\<rparr>)"
proof -
  have g: "getParentPath demo_env = getParentPath_spec" by (simp add: demo_env_def)
  have s: "CHR ''/'' \<notin> set ''Utils''" by simp
  from parent_navigation [of demo_env demo_resolver _ AstExprOther "''Utils''"
      "''game/ReplicatedStorage''" False] g s
  show ?thesis by simp
qed

text \<open>
  Claim C9. A method call \<open>FindFirstChild\<close> with two or more arguments resolves to no
  result, whatever the context. \<open>FindFirstChild\<close> with a single literal argument and
  \<open>WaitForChild\<close> with a literal first argument resolve exactly as indexed access
  with that literal does, which in turn is named child access for every name other
  than \<open>Parent\<close> (the name the resolver reads as parent navigation).
\<close>

theorem find_first_child:
  "(length args \<ge> 2 \<longrightarrow>
      resolveModule e st context (AstExprCall (AstExprIndexName obj ''FindFirstChild'') args self)
      = Inr None) \<and>
   resolveModule e st context
      (AstExprCall (AstExprIndexName obj ''FindFirstChild'') [AstExprConstantString s] True)
   = resolveModule e st context (AstExprIndexExpr obj (AstExprConstantString s)) \<and>
   resolveModule e st context
      (AstExprCall (AstExprIndexName obj ''WaitForChild'') (AstExprConstantString s # others) True)
   = resolveModule e st context (AstExprIndexExpr obj (AstExprConstantString s)) \<and>
   (s \<noteq> ''Parent'' \<longrightarrow>
      resolveModule e st context (AstExprIndexExpr obj (AstExprConstantString s))
      = resolveModule e st context (AstExprIndexName obj s))"
  by (cases "context") (auto split: AstExpr.splits)

theorem find_first_child_witness:
  "resolveModule demo_env demo_resolver (Some \<lparr>moduleName = ''game/A'', optional = True\<rparr>)
      (AstExprCall (AstExprIndexName AstExprOther ''FindFirstChild'')
         [AstExprConstantString ''B'', AstExprConstantString ''C''] True)
   = Inr None \<and>
   resolveModule demo_env demo_resolver (Some \<lparr>moduleName = ''game/A'', optional = True\<rparr>)
      (AstExprCall (AstExprIndexName AstExprOther ''FindFirstChild'')
         [AstExprConstantString ''B''] True)
   = Inr (Some \<lparr>moduleName = ''game/A/B'', optional = True\<rparr>) \<and>
   resolveModule demo_env demo_resolver (Some \<lparr>moduleName = ''game/A'', optional = True\<rparr>)
      (AstExprIndexName AstExprOther ''B'')
   = Inr (Some \<lparr>moduleName = ''game/A/B'', optional = True\<rparr>)"
  using find_first_child [of "[AstExprConstantString ''B'', AstExprConstantString ''C'']"
      demo_env demo_resolver "Some \<lparr>moduleName = ''game/A'', optional = True\<rparr>"
      AstExprOther True "''B''" "[]"]
  by (simp add: childOf_def mapContext_def)

text \<open>
  Claim C6, as stated: of the directory aliases that are a prefix of the literal, the
  longest is chosen. The loop returns at the first matching entry it meets, and the
  table is unordered: with the aliases \<open>@a/\<close> and \<open>@a/b/\<close> met in that order, the
  literal \<open>@a/b/foo\<close> is resolved through \<open>@a/\<close>.
\<close>

theorem directory_alias_longest_counterexample:
  "resolveDirectoryAlias demo_env [(''@a/'', ''/x''), (''@a/b/'', ''/y'')] ''@a/b/foo'' False
     = Some ''/x/b/foo'' \<and>
   resolveDirectoryAlias_longest demo_env [(''@a/'', ''/x''), (''@a/b/'', ''/y'')] ''@a/b/foo''
     = Some ''/y/foo''"
  by (simp add: demo_env_def resolveDirectoryAlias_longest_def path_join_def is_absolute_def)

text \<open>
  Claim C6, amended: the alias chosen is the first one, in the iteration order of the
  alias table, that is a prefix of the literal, and no later entry is looked at. Its
  prefix is replaced by the target directory and the remainder of the literal is
  joined to it (the directory alone when nothing remains), the result passing through
  \<^verbatim>\<open>resolvePath\<close>.
\<close>

theorem directory_alias_first_match:
  "resolveDirectoryAlias e aliases str includeExtension =
     (case find (\<lambda>(alias, pth). prefix alias str) aliases of
        None \<Rightarrow> None
      | Some (alias, pth) \<Rightarrow> resolveDirectoryAlias e [(alias, pth)] str includeExtension) \<and>
   resolveDirectoryAlias e aliases str False =
     (case find (\<lambda>(alias, pth). prefix alias str) aliases of
        None \<Rightarrow> None
      | Some (alias, pth) \<Rightarrow>
          Some (resolvePath e
                  (if drop (length alias) str = [] then pth
                   else path_join pth (drop (length alias) str))))"
  by (induction aliases) (auto simp: Let_def)

theorem directory_alias_first_match_witness:
  "resolveDirectoryAlias demo_env [(''@b/'', ''/z''), (''@a/'', ''/x'')] ''@a/foo'' False
     = Some ''/x/foo''"
  using directory_alias_first_match
    [of demo_env "[(''@b/'', ''/z''), (''@a/'', ''/x'')]" "''@a/foo''" False]
  by (simp add: demo_env_def path_join_def is_absolute_def)

subsection \<open>The two resolution directions\<close>

text \<open>
  Claim C10. A name classified as a virtual path is returned unchanged by
  \<^verbatim>\<open>resolveToVirtualPath\<close>, and a name not so classified is returned unchanged by
  \<^verbatim>\<open>resolveToRealPath\<close>; this holds for every resolver state and every environment,
  so neither index nor the filesystem has a say.
\<close>

theorem identity_fixed_point:
  "(isVirtualPath e nm \<longrightarrow> resolveToVirtualPath e st nm = Some nm) \<and>
   (\<not> isVirtualPath e nm \<longrightarrow> resolveToRealPath e st nm = Some nm)"
  by (simp add: resolveToVirtualPath_def resolveToRealPath_def)

theorem identity_fixed_point_witness:
  "isVirtualPath demo_env ''game/Workspace'' \<and>
   resolveToVirtualPath demo_env demo_resolver ''game/Workspace'' = Some ''game/Workspace'' \<and>
   \<not> isVirtualPath demo_env ''/ws/a.luau'' \<and>
   resolveToRealPath demo_env demo_resolver ''/ws/a.luau'' = Some ''/ws/a.luau''"
proof -
  have v: "isVirtualPath demo_env ''game/Workspace''" by (simp add: demo_env_def)
  have r: "\<not> isVirtualPath demo_env ''/ws/a.luau''" by (simp add: demo_env_def)
  from v r identity_fixed_point [of demo_env "''game/Workspace''" demo_resolver]
    identity_fixed_point [of demo_env "''/ws/a.luau''" demo_resolver]
  show ?thesis by blast
qed

subsection \<open>Rebuilding\<close>

text \<open>The rebuild of the concrete workspace from the description \<open>scenarioA\<close>.\<close>

lemma scenarioA_built:
  "updateSourceMap demo_env ''scenarioA'' demo_resolver =
     demo_resolver\<lparr>
       rootSourceNode := Some
         (SourceNode ''root'' ''DataModel'' None ''game'' None
            [SourceNode ''ReplicatedStorage'' ''Folder'' (Some ''src/shared/init.luau'')
               ''game/ReplicatedStorage'' (Some []) []]),
       realPathsToSourceNodes := [''/ws/src/shared/init.luau'' \<mapsto> [0]],
       virtualPathsToSourceNodes := [''game'' \<mapsto> [], ''game/ReplicatedStorage'' \<mapsto> [0]]\<rparr>"
  by (simp add: updateSourceMap_def demo_env_def demo_resolver_def scenario_tree_def
      path_join_def is_absolute_def)

text \<open>
  Claim C1, as stated: a description that fails to parse leaves both path indexes
  untouched and queryable. The indexes are cleared before the description is read:
  after a successful rebuild and a malformed one, the lookup that succeeded finds
  nothing.
\<close>

theorem malformed_description_counterexample:
  "parseSourceMap demo_env ''malformed'' = None \<and>
   getSourceNodeFromVirtualPath (updateSourceMap demo_env ''scenarioA'' demo_resolver)
     ''game/ReplicatedStorage'' = Some [0] \<and>
   getSourceNodeFromVirtualPath
     (updateSourceMap demo_env ''malformed''
        (updateSourceMap demo_env ''scenarioA'' demo_resolver))
     ''game/ReplicatedStorage'' = None"
proof -
  have "parseSourceMap demo_env ''malformed'' = None" by (simp add: demo_env_def)
  moreover from this
  have "getSourceNodeFromVirtualPath (updateSourceMap demo_env ''malformed'' st) k = None"
    for st :: "string list resolver" and k
    by (simp add: updateSourceMap_def getSourceNodeFromVirtualPath_def)
  ultimately show ?thesis
    by (simp add: scenarioA_built getSourceNodeFromVirtualPath_def)
qed

text \<open>
  Claim C1, amended: for a description that fails to parse, the rebuild keeps the
  previously built tree (\<^verbatim>\<open>rootSourceNode\<close> is not replaced) and every other field of
  the resolver, but both path indexes are emptied, so that every lookup by virtual
  path or by real path gives no result until the next successful rebuild.
\<close>

theorem malformed_description_clears_indexes:
  "parseSourceMap e sourceMapContents = None \<Longrightarrow>
     updateSourceMap e sourceMapContents st =
       st\<lparr>realPathsToSourceNodes := Map.empty, virtualPathsToSourceNodes := Map.empty\<rparr> \<and>
     rootSourceNode (updateSourceMap e sourceMapContents st) = rootSourceNode st \<and>
     getSourceNodeFromVirtualPath (updateSourceMap e sourceMapContents st) vp = None \<and>
     getSourceNodeFromRealPath e (updateSourceMap e sourceMapContents st) rp = None"
  by (simp add: updateSourceMap_def getSourceNodeFromVirtualPath_def
      getSourceNodeFromRealPath_def)

theorem malformed_description_clears_indexes_witness:
  "parseSourceMap demo_env ''malformed'' = None \<and>
   rootSourceNode (updateSourceMap demo_env ''malformed''
                     (updateSourceMap demo_env ''scenarioA'' demo_resolver))
     = rootSourceNode (updateSourceMap demo_env ''scenarioA'' demo_resolver) \<and>
   getSourceNodeFromVirtualPath
     (updateSourceMap demo_env ''malformed''
        (updateSourceMap demo_env ''scenarioA'' demo_resolver)) ''game'' = None"
proof -
  have h: "parseSourceMap demo_env ''malformed'' = None" by (simp add: demo_env_def)
  from malformed_description_clears_indexes [OF h,
      of "updateSourceMap demo_env ''scenarioA'' demo_resolver" "''game''"] h
  show ?thesis by blast
qed

text \<open>
  Claim C7. The key of the real-path index is meant to fall back, when
  canonicalization fails, to the path that was to be canonicalized: the workspace
  root joined with the script file path, which is also what
  \<^verbatim>\<open>getSourceNodeFromRealPath\<close> falls back to and what \<^verbatim>\<open>getRealPathFromSourceNode\<close>
  returns. \<^verbatim>\<open>writePathsToMap\<close> falls back to the script file path alone. With root
  \<open>/ws\<close>, script file path \<open>src/shared/init.luau\<close> and a failing canonicalization the
  only key is \<open>src/shared/init.luau\<close>, and the lookup of the node's real path
  \<open>/ws/src/shared/init.luau\<close> finds nothing.
\<close>

theorem canonicalization_failure_key:
  "weakly_canonical (demo_env\<lparr>weakly_canonical := (\<lambda>p. None)\<rparr>) ''/ws/src/shared/init.luau'' = None \<and>
   realPathsToSourceNodes
     (updateSourceMap (demo_env\<lparr>weakly_canonical := (\<lambda>p. None)\<rparr>) ''scenarioA'' demo_resolver)
   = [''src/shared/init.luau'' \<mapsto> [0]] \<and>
   getSourceNodeFromRealPath (demo_env\<lparr>weakly_canonical := (\<lambda>p. None)\<rparr>)
     (updateSourceMap (demo_env\<lparr>weakly_canonical := (\<lambda>p. None)\<rparr>) ''scenarioA'' demo_resolver)
     (path_join ''/ws'' ''src/shared/init.luau'') = None"
  by (simp add: updateSourceMap_def demo_env_def demo_resolver_def scenario_tree_def
      path_join_def is_absolute_def getSourceNodeFromRealPath_def)

text \<open>
  The index a traversal leaves behind is the fold of the single writes over the
  nodes of the resulting tree in visiting order, and the visiting order lists exactly
  the nodes \<open>node_at\<close> reaches.
\<close>

lemma fold_index_step_lookup:
  assumes "m k = Some p \<or> (\<exists>n. (p, n) \<in> set xs \<and> kf n = Some k)"
    and "\<forall>(p', n') \<in> set xs. kf n' = Some k \<longrightarrow> p' = p"
  shows "fold (index_step kf) xs m k = Some p"
  using assms
proof (induction xs arbitrary: m)
  case Nil
  then show ?case by simp
next
  case (Cons x xs)
  obtain p0 n0 where x: "x = (p0, n0)" by (cases x)
  let ?m' = "index_step kf x m"
  have uniq: "\<forall>(p', n') \<in> set xs. kf n' = Some k \<longrightarrow> p' = p"
    using Cons.prems(2) by auto
  have "?m' k = Some p \<or> (\<exists>n. (p, n) \<in> set xs \<and> kf n = Some k)"
  proof (cases "kf n0 = Some k")
    case True
    with Cons.prems(2) x have "p0 = p" by auto
    with True x show ?thesis by (simp add: index_step_def)
  next
    case False
    then have same: "?m' k = m k" using x by (auto simp: index_step_def split: option.splits)
    from Cons.prems(1) show ?thesis
    proof
      assume "m k = Some p"
      with same show ?thesis by simp
    next
      assume "\<exists>n. (p, n) \<in> set (x # xs) \<and> kf n = Some k"
      then obtain n where n: "(p, n) \<in> set (x # xs)" "kf n = Some k" by blast
      with False x have "(p, n) \<in> set xs" by auto
      with n show ?thesis by blast
    qed
  qed
  from Cons.IH [of ?m', OF this uniq] show ?case by simp
qed

lemma writePathsToMap_fold:
  "writePathsToMap e pos t base st = (t', st') \<Longrightarrow>
     virtualPathsToSourceNodes st'
       = fold (index_step virtualKey) (preorder pos t') (virtualPathsToSourceNodes st) \<and>
     realPathsToSourceNodes st'
       = fold (index_step (realKey e (rootUri_fsPath st))) (preorder pos t')
           (realPathsToSourceNodes st) \<and>
     rootUri_fsPath st' = rootUri_fsPath st"
  and writeChildren_fold:
  "writeChildren e pos i cs base st = (cs', st') \<Longrightarrow>
     virtualPathsToSourceNodes st'
       = fold (index_step virtualKey) (preorder_list pos i cs') (virtualPathsToSourceNodes st) \<and>
     realPathsToSourceNodes st'
       = fold (index_step (realKey e (rootUri_fsPath st))) (preorder_list pos i cs')
           (realPathsToSourceNodes st) \<and>
     rootUri_fsPath st' = rootUri_fsPath st"
proof (induction e pos t base st and e pos i cs base st arbitrary: t' st' and cs' st'
    rule: writePathsToMap_writeChildren.induct)
  case (1 e pos nm cls sfp vp par chs base st)
  define st1 where
    "st1 = st\<lparr>virtualPathsToSourceNodes := (virtualPathsToSourceNodes st)(base \<mapsto> pos)\<rparr>"
  define st2 where
    "st2 = (case sfp of
              Some realPath \<Rightarrow>
                (let canonicalName =
                       (case weakly_canonical e (path_join (rootUri_fsPath st1) realPath) of
                          Some c \<Rightarrow> c
                        | None \<Rightarrow> realPath)
                 in st1\<lparr>realPathsToSourceNodes :=
                          (realPathsToSourceNodes st1)(canonicalName \<mapsto> pos)\<rparr>)
            | None \<Rightarrow> st1)"
  obtain chs' st3 where wc: "writeChildren e pos 0 chs base st2 = (chs', st3)"
    by (cases "writeChildren e pos 0 chs base st2")
  have unfolded: "writePathsToMap e pos (SourceNode nm cls sfp vp par chs) base st
      = (case writeChildren e pos 0 chs base st2 of
           (chs', st3) \<Rightarrow> (SourceNode nm cls sfp base par chs', st3))"
    unfolding st2_def st1_def by (simp add: Let_def)
  from "1.prems" wc have res: "t' = SourceNode nm cls sfp base par chs'" "st' = st3"
    unfolding unfolded by simp_all
  have v2: "virtualPathsToSourceNodes st2
              = index_step virtualKey (pos, t') (virtualPathsToSourceNodes st)"
    by (simp add: st2_def st1_def res index_step_def virtualKey_def Let_def split: option.splits)
  have r2: "realPathsToSourceNodes st2
              = index_step (realKey e (rootUri_fsPath st)) (pos, t') (realPathsToSourceNodes st)"
    by (simp add: st2_def st1_def res index_step_def realKey_def realPathKey_def Let_def
        split: option.splits)
  have u2: "rootUri_fsPath st2 = rootUri_fsPath st"
    by (simp add: st2_def st1_def Let_def split: option.splits)
  from "1.IH" [OF st1_def st2_def wc]
  have "virtualPathsToSourceNodes st3
          = fold (index_step virtualKey) (preorder_list pos 0 chs') (virtualPathsToSourceNodes st2)"
    and "realPathsToSourceNodes st3
          = fold (index_step (realKey e (rootUri_fsPath st2))) (preorder_list pos 0 chs')
              (realPathsToSourceNodes st2)"
    and "rootUri_fsPath st3 = rootUri_fsPath st2"
    by simp_all
  with v2 r2 u2 res show ?case by simp
next
  case (2 e pos i base st)
  then show ?case by simp
next
  case (3 e pos i child rest base st)
  obtain nm cls sfp vp par chs where child: "child = SourceNode nm cls sfp vp par chs"
    by (cases child)
  obtain child' st1 where wp:
    "writePathsToMap e (pos @ [i]) (SourceNode nm cls sfp vp (Some pos) chs)
       (base @ ''/'' @ nm) st = (child', st1)"
    by (cases "writePathsToMap e (pos @ [i]) (SourceNode nm cls sfp vp (Some pos) chs)
       (base @ ''/'' @ nm) st")
  obtain rest' st2 where wc: "writeChildren e pos (Suc i) rest base st1 = (rest', st2)"
    by (cases "writeChildren e pos (Suc i) rest base st1")
  from "3.prems" child wp wc have res: "cs' = child' # rest'" "st' = st2" by simp_all
  from "3.IH"(1) [OF child wp]
  have a: "virtualPathsToSourceNodes st1
          = fold (index_step virtualKey) (preorder (pos @ [i]) child') (virtualPathsToSourceNodes st)"
    "realPathsToSourceNodes st1
          = fold (index_step (realKey e (rootUri_fsPath st))) (preorder (pos @ [i]) child')
              (realPathsToSourceNodes st)"
    "rootUri_fsPath st1 = rootUri_fsPath st"
    by simp_all
  from "3.IH"(2) [OF child wp [symmetric] refl wc]
  have b: "virtualPathsToSourceNodes st2
          = fold (index_step virtualKey) (preorder_list pos (Suc i) rest') (virtualPathsToSourceNodes st1)"
    "realPathsToSourceNodes st2
          = fold (index_step (realKey e (rootUri_fsPath st1))) (preorder_list pos (Suc i) rest')
              (realPathsToSourceNodes st1)"
    "rootUri_fsPath st2 = rootUri_fsPath st1"
    by simp_all
  from a b res show ?case by simp
qed

lemma preorder_sound:
  "(p, n) \<in> set (preorder pos t) \<Longrightarrow> \<exists>q. p = pos @ q \<and> node_at t q = Some n"
  and preorder_list_sound:
  "(p, n) \<in> set (preorder_list pos i cs) \<Longrightarrow>
     \<exists>j q. j < length cs \<and> p = pos @ (i + j) # q \<and> node_at (cs ! j) q = Some n"
proof (induction pos t and pos i cs arbitrary: p n and p n
    rule: preorder_preorder_list.induct)
  case (1 pos nm cls sfp vp par chs)
  let ?t = "SourceNode nm cls sfp vp par chs"
  from "1.prems" consider "(p, n) = (pos, ?t)" | "(p, n) \<in> set (preorder_list pos 0 chs)"
    by auto
  then show ?case
  proof cases
    case 1
    then have "p = pos @ [] \<and> node_at ?t [] = Some n" by simp
    then show ?thesis by blast
  next
    case 2
    from "1.IH" [OF 2] obtain j q where
      jq: "j < length chs" "p = pos @ j # q" "node_at (chs ! j) q = Some n" by auto
    then have "p = pos @ (j # q) \<and> node_at ?t (j # q) = Some n" by simp
    then show ?thesis by blast
  qed
next
  case (2 pos i)
  then show ?case by simp
next
  case (3 pos i child rest)
  from "3.prems" consider "(p, n) \<in> set (preorder (pos @ [i]) child)"
    | "(p, n) \<in> set (preorder_list pos (Suc i) rest)"
    by auto
  then show ?case
  proof cases
    case 1
    from "3.IH"(1) [OF 1] obtain q where "p = (pos @ [i]) @ q" "node_at child q = Some n"
      by auto
    then have "0 < length (child # rest) \<and> p = pos @ (i + 0) # q
        \<and> node_at ((child # rest) ! 0) q = Some n" by simp
    then show ?thesis by blast
  next
    case 2
    from "3.IH"(2) [OF 2] obtain j q where
      "j < length rest" "p = pos @ (Suc i + j) # q" "node_at (rest ! j) q = Some n" by auto
    then have "Suc j < length (child # rest) \<and> p = pos @ (i + Suc j) # q
        \<and> node_at ((child # rest) ! Suc j) q = Some n" by simp
    then show ?thesis by blast
  qed
qed

lemma preorder_complete:
  "node_at t q = Some n \<Longrightarrow> (pos @ q, n) \<in> set (preorder pos t)"
  and preorder_list_complete:
  "j < length cs \<Longrightarrow> node_at (cs ! j) q = Some n \<Longrightarrow>
     (pos @ (i + j) # q, n) \<in> set (preorder_list pos i cs)"
proof (induction pos t and pos i cs arbitrary: q n and j q n
    rule: preorder_preorder_list.induct)
  case (1 pos nm cls sfp vp par chs)
  show ?case
  proof (cases q)
    case Nil
    with "1.prems" have "n = SourceNode nm cls sfp vp par chs" by simp
    with Nil show ?thesis by simp
  next
    case (Cons j q')
    with "1.prems" have j: "j < length chs" "node_at (chs ! j) q' = Some n"
      by (simp_all split: if_splits)
    from "1.IH" [OF j] Cons show ?thesis by simp
  qed
next
  case (2 pos i)
  then show ?case by simp
next
  case (3 pos i child rest)
  show ?case
  proof (cases j)
    case 0
    with "3.prems" have "node_at child q = Some n" by simp
    from "3.IH"(1) [OF this] 0 show ?thesis by simp
  next
    case (Suc j')
    with "3.prems" have "j' < length rest" "node_at (rest ! j') q = Some n" by simp_all
    from "3.IH"(2) [OF this] Suc show ?thesis by simp
  qed
qed

text \<open>
  Claim C3, as stated: after a rebuild, the virtual-path index maps every node's
  virtual path to that node. Two children of one node may carry the same name; they
  get the same virtual path, and the index keeps the one visited last. In the tree
  \<open>twins\<close> the first child has virtual path \<open>game/A\<close>, and the lookup of \<open>game/A\<close>
  returns the second child.
\<close>

theorem duplicate_names_counterexample:
  "map_option virtualPath (deref (updateSourceMap demo_env ''twins'' demo_resolver) [0])
     = Some ''game/A'' \<and>
   getSourceNodeFromVirtualPath (updateSourceMap demo_env ''twins'' demo_resolver) ''game/A''
     = Some [1]"
  by (simp add: updateSourceMap_def demo_env_def demo_resolver_def twins_tree_def
      deref_def getSourceNodeFromVirtualPath_def)

text \<open>
  Claim C3, amended: after a rebuild from a description that parses, for every node
  of the resulting tree: if no other node of the tree has the same virtual path, the
  lookup of the node's virtual path returns that node; and if the node carries a
  script file path, the canonicalization of the workspace root joined with it
  succeeds, and no other node of the tree is stored under the same key, then the
  lookup of the node's real path (canonicalized by the lookup) returns that node.
\<close>

theorem rebuilt_index_lookup:
  assumes parse: "parseSourceMap e contents = Some j"
  shows "\<exists>root. rootSourceNode (updateSourceMap e contents st) = Some root \<and>
     (\<forall>pos n. node_at root pos = Some n \<longrightarrow>
        ((\<forall>q m. node_at root q = Some m \<and> virtualPath m = virtualPath n \<longrightarrow> q = pos) \<longrightarrow>
           getSourceNodeFromVirtualPath (updateSourceMap e contents st) (virtualPath n)
             = Some pos) \<and>
        (\<forall>f c. scriptFilePath n = Some f \<and>
               weakly_canonical e (path_join (rootUri_fsPath st) f) = Some c \<and>
               (\<forall>q m g. node_at root q = Some m \<and> scriptFilePath m = Some g \<and>
                        realPathKey e (rootUri_fsPath st) g = c \<longrightarrow> q = pos) \<longrightarrow>
           getSourceNodeFromRealPath e (updateSourceMap e contents st)
             (path_join (rootUri_fsPath st) f) = Some pos))"
proof -
  define st0 where
    "st0 = st\<lparr>realPathsToSourceNodes := Map.empty, virtualPathsToSourceNodes := Map.empty\<rparr>"
  define root0 where
    "root0 = (if pluginInfo st0 \<and> className j = ''DataModel''
              then mutateWithPluginInfo e j else j)"
  define base where
    "base = (if className root0 = ''DataModel'' then ''game'' else ''ProjectRoot'')"
  obtain root1 st1 where wp: "writePathsToMap e [] root0 base st0 = (root1, st1)"
    by (cases "writePathsToMap e [] root0 base st0")
  have upd: "updateSourceMap e contents st = st1\<lparr>rootSourceNode := Some root1\<rparr>"
    using parse wp unfolding updateSourceMap_def Let_def st0_def [symmetric]
    by (simp add: root0_def [symmetric] base_def [symmetric])
  let ?root = "rootUri_fsPath st"
  from writePathsToMap_fold [OF wp]
  have v1: "virtualPathsToSourceNodes st1
              = fold (index_step virtualKey) (preorder [] root1) Map.empty"
    and r1: "realPathsToSourceNodes st1
              = fold (index_step (realKey e ?root)) (preorder [] root1) Map.empty"
    by (simp_all add: st0_def)
  have V: "getSourceNodeFromVirtualPath (updateSourceMap e contents st) (virtualPath n) = Some pos"
    if n: "node_at root1 pos = Some n"
      and u: "\<forall>q m. node_at root1 q = Some m \<and> virtualPath m = virtualPath n \<longrightarrow> q = pos"
    for pos n
  proof -
    from preorder_complete [OF n, of "[]"] have mem: "(pos, n) \<in> set (preorder [] root1)"
      by simp
    have uniq: "\<forall>(p', n') \<in> set (preorder [] root1).
        virtualKey n' = Some (virtualPath n) \<longrightarrow> p' = pos"
    proof (clarify)
      fix p' n'
      assume "(p', n') \<in> set (preorder [] root1)" "virtualKey n' = Some (virtualPath n)"
      with preorder_sound [of p' n' "[]" root1]
      have "node_at root1 p' = Some n'" "virtualPath n' = virtualPath n"
        by (auto simp: virtualKey_def)
      with u show "p' = pos" by blast
    qed
    have "fold (index_step virtualKey) (preorder [] root1) Map.empty (virtualPath n) = Some pos"
      by (rule fold_index_step_lookup) (use mem uniq in \<open>auto simp: virtualKey_def\<close>)
    then show ?thesis by (simp add: upd getSourceNodeFromVirtualPath_def v1)
  qed
  have R: "getSourceNodeFromRealPath e (updateSourceMap e contents st) (path_join ?root f)
          = Some pos"
    if n: "node_at root1 pos = Some n" and f: "scriptFilePath n = Some f"
      and c: "weakly_canonical e (path_join ?root f) = Some c"
      and u: "\<forall>q m g. node_at root1 q = Some m \<and> scriptFilePath m = Some g \<and>
                realPathKey e ?root g = c \<longrightarrow> q = pos"
    for pos n f c
  proof -
    from preorder_complete [OF n, of "[]"] have mem: "(pos, n) \<in> set (preorder [] root1)"
      by simp
    have key: "realKey e ?root n = Some c" using f c by (simp add: realKey_def realPathKey_def)
    have uniq: "\<forall>(p', n') \<in> set (preorder [] root1). realKey e ?root n' = Some c \<longrightarrow> p' = pos"
    proof (clarify)
      fix p' n'
      assume "(p', n') \<in> set (preorder [] root1)" "realKey e ?root n' = Some c"
      with preorder_sound [of p' n' "[]" root1]
      obtain g where "node_at root1 p' = Some n'" "scriptFilePath n' = Some g"
        "realPathKey e ?root g = c"
        by (auto simp: realKey_def)
      with u show "p' = pos" by blast
    qed
    have "fold (index_step (realKey e ?root)) (preorder [] root1) Map.empty c = Some pos"
      by (rule fold_index_step_lookup) (use mem uniq key in auto)
    then show ?thesis using c by (simp add: upd getSourceNodeFromRealPath_def r1)
  qed
  have root: "rootSourceNode (updateSourceMap e contents st) = Some root1"
    by (simp add: upd)
  have body: "\<forall>pos n. node_at root1 pos = Some n \<longrightarrow>
        ((\<forall>q m. node_at root1 q = Some m \<and> virtualPath m = virtualPath n \<longrightarrow> q = pos) \<longrightarrow>
           getSourceNodeFromVirtualPath (updateSourceMap e contents st) (virtualPath n)
             = Some pos) \<and>
        (\<forall>f c. scriptFilePath n = Some f \<and>
               weakly_canonical e (path_join (rootUri_fsPath st) f) = Some c \<and>
               (\<forall>q m g. node_at root1 q = Some m \<and> scriptFilePath m = Some g \<and>
                        realPathKey e (rootUri_fsPath st) g = c \<longrightarrow> q = pos) \<longrightarrow>
           getSourceNodeFromRealPath e (updateSourceMap e contents st)
             (path_join (rootUri_fsPath st) f) = Some pos)"
    using V R by blast
  from root body show ?thesis by blast
qed

theorem rebuilt_index_lookup_witness:
  "parseSourceMap demo_env ''scenarioA'' = Some scenario_tree \<and>
   map_option virtualPath (deref (updateSourceMap demo_env ''scenarioA'' demo_resolver) [0])
     = Some ''game/ReplicatedStorage'' \<and>
   getSourceNodeFromVirtualPath (updateSourceMap demo_env ''scenarioA'' demo_resolver)
     ''game/ReplicatedStorage'' = Some [0] \<and>
   getSourceNodeFromRealPath demo_env (updateSourceMap demo_env ''scenarioA'' demo_resolver)
     ''/ws/src/shared/init.luau'' = Some [0]"
proof -
  let ?st = "updateSourceMap demo_env ''scenarioA'' demo_resolver"
  let ?C = "SourceNode ''ReplicatedStorage'' ''Folder'' (Some ''src/shared/init.luau'')
               ''game/ReplicatedStorage'' (Some []) []"
  let ?R = "SourceNode ''root'' ''DataModel'' None ''game'' None [?C]"
  have parse: "parseSourceMap demo_env ''scenarioA'' = Some scenario_tree"
    by (simp add: demo_env_def)
  have root: "rootSourceNode ?st = Some ?R" by (simp add: scenarioA_built)
  have nodes: "(q = [] \<and> m = ?R) \<or> (q = [0] \<and> m = ?C)" if "node_at ?R q = Some m" for q m
  proof (cases q)
    case Nil
    with that show ?thesis by simp
  next
    case (Cons i p)
    with that have i: "i = 0" and p: "node_at ?C p = Some m" by (simp_all split: if_splits)
    from p have "p = [] \<and> m = ?C" by (cases p) simp_all
    with i Cons show ?thesis by simp
  qed
  have at: "node_at ?R [0] = Some ?C" by simp
  have uv: "\<forall>q m. node_at ?R q = Some m \<and> virtualPath m = virtualPath ?C \<longrightarrow> q = [0]"
    using nodes by fastforce
  have ws: "rootUri_fsPath demo_resolver = ''/ws''" by (simp add: demo_resolver_def)
  have pj: "path_join ''/ws'' ''src/shared/init.luau'' = ''/ws/src/shared/init.luau''"
    by (simp add: path_join_def is_absolute_def)
  have canon: "weakly_canonical demo_env (path_join (rootUri_fsPath demo_resolver)
      ''src/shared/init.luau'') = Some ''/ws/src/shared/init.luau''"
    by (simp add: ws pj) (simp add: demo_env_def)
  have ur: "\<forall>q m g. node_at ?R q = Some m \<and> scriptFilePath m = Some g \<and>
      realPathKey demo_env (rootUri_fsPath demo_resolver) g = ''/ws/src/shared/init.luau''
      \<longrightarrow> q = [0]"
    using nodes by fastforce
  from rebuilt_index_lookup [OF parse, of demo_resolver] root
  have all: "\<forall>pos n. node_at ?R pos = Some n \<longrightarrow>
        ((\<forall>q m. node_at ?R q = Some m \<and> virtualPath m = virtualPath n \<longrightarrow> q = pos) \<longrightarrow>
           getSourceNodeFromVirtualPath ?st (virtualPath n) = Some pos) \<and>
        (\<forall>f c. scriptFilePath n = Some f \<and>
               weakly_canonical demo_env (path_join (rootUri_fsPath demo_resolver) f) = Some c \<and>
               (\<forall>q m g. node_at ?R q = Some m \<and> scriptFilePath m = Some g \<and>
                        realPathKey demo_env (rootUri_fsPath demo_resolver) g = c \<longrightarrow> q = pos) \<longrightarrow>
           getSourceNodeFromRealPath demo_env ?st
             (path_join (rootUri_fsPath demo_resolver) f) = Some pos)"
    by auto
  from all [rule_format, OF at] uv
  have v: "getSourceNodeFromVirtualPath ?st (virtualPath ?C) = Some [0]" by blast
  from all [rule_format, OF at, THEN conjunct2, rule_format,
      of "''src/shared/init.luau''" "''/ws/src/shared/init.luau''"] canon ur
  have r: "getSourceNodeFromRealPath demo_env ?st
      (path_join (rootUri_fsPath demo_resolver) ''src/shared/init.luau'') = Some [0]"
    by simp
  have d: "map_option virtualPath (deref ?st [0]) = Some ''game/ReplicatedStorage''"
    by (simp add: deref_def root)
  from parse v r d show ?thesis by (simp add: ws pj)
qed

subsection \<open>The configuration cascade\<close>

text \<open>
  Reading a directory's configuration file changes neither the cache nor the fields
  the resolution of a name depends on; and on a cache that agrees with the cascade,
  \<^verbatim>\<open>readConfigRec\<close> returns the cascade's record and leaves such a cache behind.
\<close>

lemma readConfigFile_result:
  "fst (readConfigFile e pth base st) = overlay e pth base"
  "configCache (snd (readConfigFile e pth base st)) = configCache st"
  "defaultConfig (snd (readConfigFile e pth base st)) = defaultConfig st"
  "rootUri_fsPath (snd (readConfigFile e pth base st)) = rootUri_fsPath st"
  "rootSourceNode (snd (readConfigFile e pth base st)) = rootSourceNode st"
  "virtualPathsToSourceNodes (snd (readConfigFile e pth base st)) = virtualPathsToSourceNodes st"
  by (auto simp: readConfigFile_def overlay_def Let_def split: option.splits prod.splits)

lemma readConfigRec_merged:
  assumes "\<forall>k c. configCache st k = Some c \<longrightarrow> c = merged e (defaultConfig st) k"
  shows "fst (readConfigRec e pth st) = merged e (defaultConfig st) pth \<and>
         (\<forall>k c. configCache (snd (readConfigRec e pth st)) k = Some c
                \<longrightarrow> c = merged e (defaultConfig st) k) \<and>
         defaultConfig (snd (readConfigRec e pth st)) = defaultConfig st \<and>
         rootUri_fsPath (snd (readConfigRec e pth st)) = rootUri_fsPath st \<and>
         rootSourceNode (snd (readConfigRec e pth st)) = rootSourceNode st \<and>
         virtualPathsToSourceNodes (snd (readConfigRec e pth st)) = virtualPathsToSourceNodes st"
  using assms
proof (induction e pth st rule: readConfigRec.induct)
  case (1 e pth st)
  let ?d = "defaultConfig st"
  show ?case
  proof (cases "configCache st pth")
    case (Some cached)
    with "1.prems" show ?thesis by (simp add: readConfigRec.simps [of e pth st])
  next
    case None
    let ?up = "has_relative_path pth \<and> has_parent_path pth"
    define r0 where "r0 = (if ?up then readConfigRec e (parent_path pth) st else (?d, st))"
    have r0: "fst r0 = (if ?up then merged e ?d (parent_path pth) else ?d) \<and>
          (\<forall>k c. configCache (snd r0) k = Some c \<longrightarrow> c = merged e ?d k) \<and>
          defaultConfig (snd r0) = ?d \<and> rootUri_fsPath (snd r0) = rootUri_fsPath st \<and>
          rootSourceNode (snd r0) = rootSourceNode st \<and>
          virtualPathsToSourceNodes (snd r0) = virtualPathsToSourceNodes st"
    proof (cases ?up)
      case True
      from "1.IH" [OF None True "1.prems"] True show ?thesis by (simp add: r0_def)
    next
      case False
      then have "r0 = (?d, st)" unfolding r0_def by (rule if_not_P)
      moreover from False
      have "(if ?up then merged e ?d (parent_path pth) else ?d) = ?d" by (rule if_not_P)
      ultimately show ?thesis using "1.prems" by simp
    qed
    define r1 where "r1 = readConfigFile e pth (fst r0) (snd r0)"
    have unfolded: "readConfigRec e pth st =
        (fst r1, (snd r1)\<lparr>configCache := (configCache (snd r1))(pth \<mapsto> fst r1)\<rparr>)"
      using None
      by (simp add: readConfigRec.simps [of e pth st] r1_def r0_def Let_def split: prod.splits)
    have f1: "fst r1 = merged e ?d pth"
      using r0 by (simp add: r1_def readConfigFile_result merged.simps [of e ?d pth])
    have c1: "configCache (snd r1) = configCache (snd r0)"
      and rest: "defaultConfig (snd r1) = ?d" "rootUri_fsPath (snd r1) = rootUri_fsPath st"
        "rootSourceNode (snd r1) = rootSourceNode st"
        "virtualPathsToSourceNodes (snd r1) = virtualPathsToSourceNodes st"
      using r0 by (simp_all add: r1_def readConfigFile_result)
    show ?thesis unfolding unfolded using f1 c1 rest r0 by simp
  qed
qed

lemma reachable_consistent:
  "config_reachable e st \<Longrightarrow>
     \<forall>k c. configCache st k = Some c \<longrightarrow> c = merged e (defaultConfig st) k"
proof (induction rule: config_reachable.induct)
  case (fresh st)
  then show ?case by simp
next
  case (query st pth)
  from readConfigRec_merged [OF query.IH, of pth] show ?case by simp
next
  case (invalidate st)
  show ?case by (simp add: clearConfigCache_def)
qed

lemma resolveToRealPath_frame:
  assumes "virtualPathsToSourceNodes st' = virtualPathsToSourceNodes st"
    and "rootSourceNode st' = rootSourceNode st"
    and "rootUri_fsPath st' = rootUri_fsPath st"
  shows "resolveToRealPath e st' nm = resolveToRealPath e st nm"
  using assms
  by (simp add: resolveToRealPath_def getSourceNodeFromVirtualPath_def deref_def
      getRealPathFromSourceNode_def cong: option.case_cong)

text \<open>
  Claim C8. In every state reached by configuration queries and invalidations on an
  unchanged filesystem: the record of a directory with a parent is the record of the
  parent directory with the directory's own configuration file overlaid, the record
  of a directory without parent is the global default with its file overlaid, and
  invalidating after a query and asking again gives the same record, for the
  recursive merge as for \<^verbatim>\<open>getConfig\<close>.
\<close>

theorem config_cascade:
  assumes reach: "config_reachable e st"
  shows "(has_relative_path pth \<and> has_parent_path pth \<longrightarrow>
            fst (readConfigRec e pth st)
              = overlay e pth (fst (readConfigRec e (parent_path pth) st))) \<and>
         (\<not> (has_relative_path pth \<and> has_parent_path pth) \<longrightarrow>
            fst (readConfigRec e pth st) = overlay e pth (defaultConfig st)) \<and>
         fst (readConfigRec e pth (clearConfigCache (snd (readConfigRec e pth st))))
           = fst (readConfigRec e pth st) \<and>
         fst (getConfig e nm (clearConfigCache (snd (getConfig e nm st))))
           = fst (getConfig e nm st)"
proof -
  let ?d = "defaultConfig st"
  note cons = reachable_consistent [OF reach]
  have rec: "fst (readConfigRec e p st) = merged e ?d p" for p
    using readConfigRec_merged [OF cons] by blast
  have cleared: "fst (readConfigRec e p (clearConfigCache st')) = merged e ?d p"
    if "defaultConfig st' = ?d" for p and st' :: "'a resolver"
  proof -
    have "\<forall>k c. configCache (clearConfigCache st') k = Some c
            \<longrightarrow> c = merged e (defaultConfig (clearConfigCache st')) k"
      by (simp add: clearConfigCache_def)
    from readConfigRec_merged [OF this, of p] that show ?thesis
      by (simp add: clearConfigCache_def)
  qed
  have up: "fst (readConfigRec e pth st)
              = overlay e pth (fst (readConfigRec e (parent_path pth) st))"
    if "has_relative_path pth \<and> has_parent_path pth"
    using that by (simp add: rec merged.simps [of e ?d pth])
  have top: "fst (readConfigRec e pth st) = overlay e pth ?d"
    if "\<not> (has_relative_path pth \<and> has_parent_path pth)"
    by (simp only: rec merged.simps [of e ?d pth] if_not_P [OF that])
  have again: "fst (readConfigRec e pth (clearConfigCache (snd (readConfigRec e pth st))))
                 = fst (readConfigRec e pth st)"
    using readConfigRec_merged [OF cons, of pth] by (simp add: cleared rec)
  have get: "fst (getConfig e nm (clearConfigCache (snd (getConfig e nm st))))
               = fst (getConfig e nm st)"
  proof -
    let ?st1 = "snd (getConfig e nm st)"
    have frame: "defaultConfig ?st1 = ?d \<and> rootUri_fsPath ?st1 = rootUri_fsPath st \<and>
        rootSourceNode ?st1 = rootSourceNode st \<and>
        virtualPathsToSourceNodes ?st1 = virtualPathsToSourceNodes st"
      using readConfigRec_merged [OF cons]
      by (auto simp: getConfig_def split: option.splits)
    then have res: "resolveToRealPath e (clearConfigCache ?st1) nm = resolveToRealPath e st nm"
      by (intro resolveToRealPath_frame) (simp_all add: clearConfigCache_def)
    have dc: "defaultConfig (clearConfigCache ?st1) = ?d"
      using frame by (simp add: clearConfigCache_def)
    show ?thesis
    proof (cases "resolveToRealPath e st nm")
      case None
      with res dc show ?thesis by (simp add: getConfig_def)
    next
      case (Some realPath)
      show ?thesis
      proof (cases "\<not> has_relative_path realPath \<or> \<not> has_parent_path realPath")
        case True
        with Some res dc show ?thesis by (simp add: getConfig_def)
      next
        case False
        then have "getConfig e nm st = readConfigRec e (parent_path realPath) st"
          and "getConfig e nm (clearConfigCache ?st1)
                 = readConfigRec e (parent_path realPath) (clearConfigCache ?st1)"
          using Some res by (simp_all add: getConfig_def)
        with frame show ?thesis by (simp add: cleared rec)
      qed
    qed
  qed
  from up top again get show ?thesis by blast
qed

theorem config_cascade_witness:
  "config_reachable demo_env demo_resolver \<and>
   has_relative_path ''/ws/sub/deep'' \<and> has_parent_path ''/ws/sub/deep'' \<and>
   parent_path ''/ws/sub/deep'' = ''/ws/sub'' \<and>
   fst (readConfigRec demo_env ''/ws/sub/deep'' demo_resolver)
     = overlay demo_env ''/ws/sub/deep'' (fst (readConfigRec demo_env ''/ws/sub'' demo_resolver)) \<and>
   fst (getConfig demo_env ''/ws/sub/deep/file''
          (clearConfigCache (snd (getConfig demo_env ''/ws/sub/deep/file'' demo_resolver))))
     = fst (getConfig demo_env ''/ws/sub/deep/file'' demo_resolver)"
proof -
  have reach: "config_reachable demo_env demo_resolver"
    by (rule config_reachable.fresh) (simp add: demo_resolver_def)
  have pp: "parent_path ''/ws/sub/deep'' = ''/ws/sub''"
    by (simp add: parent_path_def has_relative_path_def is_absolute_def)
  have hp: "has_relative_path ''/ws/sub/deep'' \<and> has_parent_path ''/ws/sub/deep''"
    by (simp add: has_parent_path_def pp) (simp add: has_relative_path_def)
  from config_cascade [OF reach, of "''/ws/sub/deep''" "''/ws/sub/deep/file''"] reach hp pp
  show ?thesis by simp
qed

text \<open>The scenario of a configuration file in \<open>/ws/sub\<close> only: a module below
  \<open>/ws/sub/deep\<close> inherits its setting.\<close>

lemma scenarioE:
  "fst (getConfig demo_env ''/ws/sub/deep/file'' demo_resolver) = [''X=1'']"
proof -
  have reach: "config_reachable demo_env demo_resolver"
    by (rule config_reachable.fresh) (simp add: demo_resolver_def)
  have rec: "fst (readConfigRec demo_env p demo_resolver) = merged demo_env [] p" for p
    using readConfigRec_merged [OF reachable_consistent [OF reach], of p]
    by (simp add: demo_resolver_def)
  have ov: "overlay demo_env p base = (if p = ''/ws/sub'' then base @ [''X=1''] else base)"
    if "p \<in> {''/'', ''/ws'', ''/ws/sub'', ''/ws/sub/deep''}" for p base
    using that by (auto simp: overlay_def demo_env_def path_join_def is_absolute_def)
  have m0: "merged demo_env [] ''/'' = []"
    by (subst merged.simps) (simp add: ov has_relative_path_def)
  have m1: "merged demo_env [] ''/ws'' = []"
    by (subst merged.simps)
      (simp add: ov m0 parent_path_def has_parent_path_def has_relative_path_def is_absolute_def)
  have m2: "merged demo_env [] ''/ws/sub'' = [''X=1'']"
    by (subst merged.simps)
      (simp add: ov m1 parent_path_def has_parent_path_def has_relative_path_def is_absolute_def)
  have m: "merged demo_env [] ''/ws/sub/deep'' = [''X=1'']"
    by (subst merged.simps)
      (simp add: ov m2 parent_path_def has_parent_path_def has_relative_path_def is_absolute_def)
  have nv: "\<not> isVirtualPath demo_env ''/ws/sub/deep/file''" by (simp add: demo_env_def)
  have pf: "parent_path ''/ws/sub/deep/file'' = ''/ws/sub/deep''"
    "has_relative_path ''/ws/sub/deep/file''"
    by (simp_all add: parent_path_def has_relative_path_def is_absolute_def)
  then have hp: "has_parent_path ''/ws/sub/deep/file''" by (simp add: has_parent_path_def)
  show ?thesis
    by (simp add: getConfig_def resolveToRealPath_def nv pf hp rec m)
qed

end
